theory Spec2Isabelle
  imports Complex_Main "HOL-Library.Word" "HOL-Library.Log_Nat"
begin

section \<open>JavaScript strings and the regular expressions of the sources\<close>

text \<open>
  A JavaScript string is a sequence of UTF-16 code units: \<open>s.length\<close> counts code units,
  and a regular expression without the \<open>u\<close> flag matches code unit by code unit. String
  literals of the sources are ASCII and are written through \<open>js\<close>.
\<close>

type_synonym code_unit = "16 word"
type_synonym js_string = "code_unit list"

definition js :: "string \<Rightarrow> js_string" where
  "js s = map (\<lambda>c. of_nat (of_char c)) s"

text \<open>\<open>s.endsWith(t)\<close>.\<close>

definition endsWith :: "js_string \<Rightarrow> js_string \<Rightarrow> bool" where
  "endsWith s t = (length t \<le> length s \<and> drop (length s - length t) s = t)"

text \<open>The character classes \<open>[A-Z]\<close> and \<open>[A-Z0-9]\<close>.\<close>

definition cls_AZ :: "code_unit \<Rightarrow> bool" where
  "cls_AZ c = (0x41 \<le> c \<and> c \<le> 0x5A)"

definition cls_AZ09 :: "code_unit \<Rightarrow> bool" where
  "cls_AZ09 c = (cls_AZ c \<or> (0x30 \<le> c \<and> c \<le> 0x39))"

text \<open>
  The fragment of regular expressions that the sources use: a character class, a counted
  repetition \<open>r{n}\<close>, concatenation, an optional group \<open>(r)?\<close> and \<open>[c]+\<close> on a class.
  \<open>rmatch r s\<close> lists, in backtracking order, what is left of \<open>s\<close> after each way of
  matching \<open>r\<close> against a prefix of it. Both patterns of the sources are anchored with
  \<open>^\<close> and \<open>$\<close> and carry no flag, so \<open>pattern.test(s)\<close> holds when some way of matching
  leaves nothing.
\<close>

datatype regex =
    Class "code_unit \<Rightarrow> bool"
  | Rep nat regex
  | Seq regex regex
  | Opt regex
  | Plus "code_unit \<Rightarrow> bool"

fun plus_match :: "(code_unit \<Rightarrow> bool) \<Rightarrow> js_string \<Rightarrow> js_string list" where
  "plus_match p [] = []"
| "plus_match p (c # cs) = (if p c then plus_match p cs @ [cs] else [])"

fun rmatch :: "regex \<Rightarrow> js_string \<Rightarrow> js_string list" where
  "rmatch (Class p) s = (case s of [] \<Rightarrow> [] | c # cs \<Rightarrow> if p c then [cs] else [])"
| "rmatch (Rep n r) s = ((\<lambda>ss. concat (map (rmatch r) ss)) ^^ n) [s]"
| "rmatch (Seq a b) s = concat (map (rmatch b) (rmatch a s))"
| "rmatch (Opt r) s = rmatch r s @ [s]"
| "rmatch (Plus p) s = plus_match p s"

definition regex_test :: "regex \<Rightarrow> js_string \<Rightarrow> bool" where
  "regex_test r s = ([] \<in> set (rmatch r s))"

text \<open>\<open>/^[A-Z]{4}[A-Z]{2}[A-Z0-9]{2}([A-Z0-9]{3})?$/\<close> (CreatePage.js, line 60).\<close>

definition swift_pattern :: regex where
  "swift_pattern =
     Seq (Rep 4 (Class cls_AZ))
       (Seq (Rep 2 (Class cls_AZ))
         (Seq (Rep 2 (Class cls_AZ09))
           (Opt (Rep 3 (Class cls_AZ09)))))"

text \<open>\<open>/^[A-Z]+$/\<close> (CreatePage.js, line 80).\<close>

definition letters_pattern :: regex where
  "letters_pattern = Plus cls_AZ"

section \<open>The creation form (CreatePage.js)\<close>

record formData =
  swiftCode :: js_string
  address :: js_string
  countryISO2 :: js_string
  countryName :: js_string
  isHeadquarter :: bool

text \<open>The initial state of the form (lines 9 to 15).\<close>

definition initialFormData :: formData where
  "initialFormData =
     \<lparr>swiftCode = [], address = [], countryISO2 = [], countryName = [], isHeadquarter = False\<rparr>"

text \<open>
  \<open>handleSwiftCodeChange\<close> (lines 36 to 50). The argument \<open>v\<close> is \<open>e.target.value\<close>;
  \<open>toUpperCase\<close> is the string method of the platform, taken as a parameter.
\<close>

definition handleSwiftCodeChange ::
  "(js_string \<Rightarrow> js_string) \<Rightarrow> formData \<Rightarrow> js_string \<Rightarrow> formData" where
  "handleSwiftCodeChange toUpperCase fd v =
     (let code = toUpperCase v
      in fd\<lparr>swiftCode := code,
            isHeadquarter := (length code = 11 \<and> endsWith code (js ''XXX''))\<rparr>)"

text \<open>
  The \<open>errors\<close> object of \<open>validateForm\<close>: its properties in the order of their creation,
  each with its message. Every property is assigned at most once.
\<close>

type_synonym errors = "(string \<times> string) list"

definition swiftCode_errors :: "formData \<Rightarrow> errors" where
  "swiftCode_errors fd =
     (if swiftCode fd = [] then [(''swiftCode'', ''SWIFT code is required'')]
      else if length (swiftCode fd) \<notin> set [8, 11]
        then [(''swiftCode'', ''SWIFT code must be either 8 or 11 characters long'')]
      else if \<not> regex_test swift_pattern (swiftCode fd)
        then [(''swiftCode'', ''Invalid SWIFT code format'')]
      else [])"

definition isHeadquarter_errors :: "formData \<Rightarrow> errors" where
  "isHeadquarter_errors fd =
     (if length (swiftCode fd) = 11 \<and> endsWith (swiftCode fd) (js ''XXX'') \<and> \<not> isHeadquarter fd
        then [(''isHeadquarter'', ''SWIFT codes ending with XXX must be headquarters'')]
      else if isHeadquarter fd
              \<and> (\<not> endsWith (swiftCode fd) (js ''XXX'') \<or> length (swiftCode fd) \<noteq> 11)
        then [(''isHeadquarter'', ''Only SWIFT codes ending with XXX can be headquarters'')]
      else [])"

definition address_errors :: "formData \<Rightarrow> errors" where
  "address_errors fd =
     (if address fd = [] then [(''address'', ''Address is required'')] else [])"

definition countryISO2_errors :: "formData \<Rightarrow> errors" where
  "countryISO2_errors fd =
     (if countryISO2 fd = [] then [(''countryISO2'', ''Country code is required'')]
      else if length (countryISO2 fd) \<noteq> 2
        then [(''countryISO2'', ''Country code must be exactly 2 characters'')]
      else if \<not> regex_test letters_pattern (countryISO2 fd)
        then [(''countryISO2'', ''Country code must contain only letters'')]
      else [])"

definition countryName_errors :: "formData \<Rightarrow> errors" where
  "countryName_errors fd =
     (if countryName fd = [] then [(''countryName'', ''Country name is required'')] else [])"

text \<open>\<open>validateForm\<close> (lines 52 to 89): five statements in sequence, one per field.\<close>

definition validateForm :: "formData \<Rightarrow> errors" where
  "validateForm fd =
     swiftCode_errors fd @ isHeadquarter_errors fd @ address_errors fd
       @ countryISO2_errors fd @ countryName_errors fd"

text \<open>
  \<open>handleSubmit\<close> (lines 91 to 117) up to the call of the registry: with any error the
  handler stores the errors and returns; otherwise it calls \<open>createSwiftCode(formData)\<close>,
  the request that creates the record in the registry.
\<close>

datatype submit_action =
    SetValidationErrors errors
  | CreateSwiftCode formData

definition handleSubmit :: "formData \<Rightarrow> submit_action" where
  "handleSubmit fd =
     (let errors = validateForm fd
      in if length (map fst errors) > 0 then SetValidationErrors errors
         else CreateSwiftCode fd)"

text \<open>
  \<open>handleChange\<close> (lines 21 to 34) writes \<open>checked\<close> for a checkbox and \<open>value\<close> otherwise
  under the name of the input. Two inputs of the form use it: the text input named
  \<open>address\<close> and the checkbox named \<open>isHeadquarter\<close>.
\<close>

datatype change_target =
    AddressInput js_string
  | HeadquarterCheckbox bool

fun handleChange :: "formData \<Rightarrow> change_target \<Rightarrow> formData" where
  "handleChange fd (AddressInput v) = fd\<lparr>address := v\<rparr>"
| "handleChange fd (HeadquarterCheckbox checked) = fd\<lparr>isHeadquarter := checked\<rparr>"

text \<open>\<open>countryOptions\<close> (lines 119 to 130) and \<open>handleCountrySelect\<close> (lines 132 to 150).\<close>

definition countryOptions :: "(js_string \<times> js_string) list" where
  "countryOptions =
     [(js ''US'', js ''United States''), (js ''DE'', js ''Germany''),
      (js ''GB'', js ''United Kingdom''), (js ''JP'', js ''Japan''),
      (js ''FR'', js ''France''), (js ''CA'', js ''Canada''),
      (js ''CN'', js ''China''), (js ''AU'', js ''Australia''),
      (js ''IT'', js ''Italy''), (js ''ES'', js ''Spain'')]"

definition handleCountrySelect :: "formData \<Rightarrow> js_string \<Rightarrow> formData" where
  "handleCountrySelect fd countryCode =
     (let country = find (\<lambda>c. fst c = countryCode) countryOptions
      in fd\<lparr>countryISO2 := countryCode,
            countryName := (case country of Some c \<Rightarrow> snd c | None \<Rightarrow> [])\<rparr>)"

text \<open>
  The events of the form. The checkbox carries
  \<open>disabled={formData.swiftCode.length === 11 && formData.swiftCode.endsWith('XXX')}\<close>
  (line 224): while it is disabled it raises no change event.
\<close>

datatype form_event =
    SwiftCodeChange js_string
  | Change change_target
  | CountrySelect js_string

definition checkbox_disabled :: "formData \<Rightarrow> bool" where
  "checkbox_disabled fd = (length (swiftCode fd) = 11 \<and> endsWith (swiftCode fd) (js ''XXX''))"

fun form_step :: "(js_string \<Rightarrow> js_string) \<Rightarrow> formData \<Rightarrow> form_event \<Rightarrow> formData" where
  "form_step toUpperCase fd (SwiftCodeChange v) = handleSwiftCodeChange toUpperCase fd v"
| "form_step toUpperCase fd (Change (AddressInput v)) = handleChange fd (AddressInput v)"
| "form_step toUpperCase fd (Change (HeadquarterCheckbox checked)) =
     (if checkbox_disabled fd then fd else handleChange fd (HeadquarterCheckbox checked))"
| "form_step toUpperCase fd (CountrySelect countryCode) = handleCountrySelect fd countryCode"

definition form_run :: "(js_string \<Rightarrow> js_string) \<Rightarrow> form_event list \<Rightarrow> formData" where
  "form_run toUpperCase evs = foldl (form_step toUpperCase) initialFormData evs"

text \<open>
  \<open>toUpperCase\<close> on the ASCII letters, for the examples: it leaves every other code unit
  as it is.
\<close>

definition ascii_upper :: "js_string \<Rightarrow> js_string" where
  "ascii_upper s = map (\<lambda>c. if 0x61 \<le> c \<and> c \<le> 0x7A then c - 0x20 else c) s"

text \<open>
  The messages that a sequence of checks reports when only its first violated check
  counts: each check is a pair of "violated" and the message.
\<close>

fun first_failure :: "(bool \<times> string) list \<Rightarrow> string list" where
  "first_failure [] = []"
| "first_failure ((violated, msg) # checks) =
     (if violated then [msg] else first_failure checks)"

section \<open>The API services (services/apiService, services/uploadApiService)\<close>

text \<open>
  A request of an axios client is settled with a response or rejected with an error; axios
  rejects on a network failure and on a status outside 200 to 299. The client is a
  parameter: a function from the request to how it settles. An \<open>async\<close> function returns
  \<open>Inr\<close> of its value or \<open>Inl\<close> of what it throws.
\<close>

datatype json =
    JNull
  | JBool bool
  | JNumber int
  | JString js_string
  | JArray "json list"
  | JObject "(string \<times> json) list"

datatype js_error = NetworkError | HttpError nat | TypeError

record http_request =
  path :: string
  query :: "(string \<times> js_string) list"

record http_response =
  status :: nat
  data :: json

type_synonym http_client = "http_request \<Rightarrow> js_error + http_response"

text \<open>\<open>try { body } catch (error) { handler }\<close>.\<close>

definition try_catch :: "js_error + 'a \<Rightarrow> (js_error \<Rightarrow> js_error + 'a) \<Rightarrow> js_error + 'a" where
  "try_catch body handler = (case body of Inl error \<Rightarrow> handler error | Inr v \<Rightarrow> Inr v)"

text \<open>\<open>const response = await request; rest\<close>.\<close>

definition await :: "js_error + 'a \<Rightarrow> ('a \<Rightarrow> js_error + 'b) \<Rightarrow> js_error + 'b" where
  "await p rest = (case p of Inl error \<Rightarrow> Inl error | Inr v \<Rightarrow> rest v)"

text \<open>
  The parameters of \<open>fetchSwiftCodesCount\<close>: each is \<open>undefined\<close> (\<open>None\<close>) or has a value.
\<close>

record count_params =
  country :: "js_string option"
  isHeadquarter_filter :: "bool option"

text \<open>
  The query parameters built in lines 51 to 59: \<open>country\<close> when it is truthy (a string
  that is not empty), \<open>is_headquarter\<close> when \<open>isHeadquarter\<close> is not \<open>undefined\<close>.
\<close>

definition queryParams :: "count_params \<Rightarrow> (string \<times> js_string) list" where
  "queryParams params =
     (case country params of
        Some c \<Rightarrow> if c \<noteq> [] then [(''country'', c)] else []
      | None \<Rightarrow> [])
     @ (case isHeadquarter_filter params of
          Some b \<Rightarrow> [(''is_headquarter'', js (if b then ''true'' else ''false''))]
        | None \<Rightarrow> [])"

definition count_request :: "count_params \<Rightarrow> http_request" where
  "count_request params = \<lparr>path = ''/api/v1/swift-code/count'', query = queryParams params\<rparr>"

definition listing_request :: "count_params \<Rightarrow> http_request" where
  "listing_request params =
     \<lparr>path = ''/api/v1/swift-code/'',
      query = queryParams params @ [(''limit'', js ''1000''), (''skip'', js ''0'')]\<rparr>"

text \<open>
  \<open>fetchSwiftCodesCount\<close> (services/apiService, lines 47 to 75 of src/unnamed/part_001).
  The inner \<open>catch\<close> requests the listing \<open>/api/v1/swift-code/?...&limit=1000&skip=0\<close>;
  the outer \<open>catch\<close> logs the error and throws it again.
\<close>

definition fetchSwiftCodesCount :: "http_client \<Rightarrow> count_params \<Rightarrow> js_error + json" where
  "fetchSwiftCodesCount apiClient params =
     try_catch
       (try_catch
          (await (apiClient (count_request params)) (\<lambda>response. Inr (data response)))
          (\<lambda>error.
             await (apiClient (listing_request params)) (\<lambda>response.
               let count = (case data response of JArray records \<Rightarrow> int (length records) | _ \<Rightarrow> 0)
               in Inr (JObject [(''count'', JNumber (if count < 1000 then count else 1000))]))))
       (\<lambda>error. Inl error)"

text \<open>
  \<open>checkUploadApiHealth\<close> (services/uploadApiService, lines 187 to 195 of
  src/unnamed/part_000).
\<close>

definition health_request :: http_request where
  "health_request = \<lparr>path = ''/health'', query = []\<rparr>"

definition checkUploadApiHealth :: "http_client \<Rightarrow> js_error + bool" where
  "checkUploadApiHealth uploadApiClient =
     try_catch
       (await (uploadApiClient health_request) (\<lambda>response. Inr (status response = 200)))
       (\<lambda>error. Inr False)"

section \<open>JavaScript numbers and the progress of an upload (UploadStatus.js)\<close>

text \<open>
  A JavaScript number is an IEEE 754 binary64 value, and every arithmetic operation
  returns the exact result rounded to the nearest such value, ties to the even
  significand. A finite number is modelled by the rational it denotes. \<open>floor_log2 x\<close> is
  the exponent \<open>e\<close> with \<open>2^e \<le> x < 2^(e+1)\<close> of a positive \<open>x\<close>; \<open>binary64\<close> rounds to 53
  significant bits. Exponents are not bounded here: the model is exact for magnitudes
  between \<open>2^-1022\<close> and \<open>2^1024\<close>, which holds every value that \<open>calculateProgress\<close>
  computes from counters below \<open>2^53\<close>.
\<close>

definition floor_log2 :: "rat \<Rightarrow> int" where
  "floor_log2 x = (if 1 \<le> x then bitlen \<lfloor>x\<rfloor> - 1 else - bitlen (\<lceil>1 / x\<rceil> - 1))"

definition round_half_even :: "rat \<Rightarrow> int" where
  "round_half_even x =
     (let n = \<lfloor>x\<rfloor>; d = x - of_int n
      in if d < 1 / 2 then n else if 1 / 2 < d then n + 1 else if even n then n else n + 1)"

definition binary64 :: "rat \<Rightarrow> rat" where
  "binary64 x =
     (if x = 0 then 0
      else (let u = floor_log2 \<bar>x\<bar> - 52
            in sgn x * of_int (round_half_even (\<bar>x\<bar> * 2 powi (- u))) * 2 powi u))"

text \<open>The operators \<open>+\<close>, \<open>/\<close> and \<open>*\<close> on numbers, and \<open>Math.floor\<close>.\<close>

definition js_add :: "rat \<Rightarrow> rat \<Rightarrow> rat" where
  "js_add x y = binary64 (x + y)"

definition js_div :: "rat \<Rightarrow> rat \<Rightarrow> rat" where
  "js_div x y = binary64 (x / y)"

definition js_mul :: "rat \<Rightarrow> rat \<Rightarrow> rat" where
  "js_mul x y = binary64 (x * y)"

definition Math_floor :: "rat \<Rightarrow> int" where
  "Math_floor x = \<lfloor>x\<rfloor>"

text \<open>
  The fields of the upload status that \<open>calculateProgress\<close> reads. The counters are the
  integers of the JSON response; read as numbers they are rounded to binary64.
\<close>

record upload_status =
  status :: js_string
  total_records :: nat
  processed :: nat
  skipped :: nat
  failed :: nat

text \<open>
  \<open>calculateProgress\<close> (lines 64 to 75). The state \<open>status\<close> of the component is \<open>null\<close>
  (\<open>None\<close>) until the first response.
\<close>

definition calculateProgress :: "upload_status option \<Rightarrow> int" where
  "calculateProgress st =
     (case st of
        None \<Rightarrow> 0
      | Some s \<Rightarrow>
          if status s = js ''pending'' then 0
          else if status s = js ''completed'' then 100
          else if status s = js ''failed'' then 100
          else if binary64 (of_nat (total_records s)) = 0 then 50
          else (let processed =
                      js_add (js_add (binary64 (of_nat (processed s)))
                                (binary64 (of_nat (failed s))))
                        (binary64 (of_nat (skipped s)))
                in Math_floor
                     (js_mul (js_div processed (binary64 (of_nat (total_records s)))) 100)))"

text \<open>A status other than the three that \<open>calculateProgress\<close> names.\<close>

definition other_status :: "upload_status \<Rightarrow> bool" where
  "other_status s \<longleftrightarrow>
     status s \<noteq> js ''pending'' \<and> status s \<noteq> js ''completed'' \<and> status s \<noteq> js ''failed''"

text \<open>
  The progress as claim C9 words it: the quotient is the exact one, \<open>floor(100 * n / total)\<close>.
\<close>

definition claimed_progress :: "upload_status \<Rightarrow> int" where
  "claimed_progress s =
     (if status s = js ''pending'' then 0
      else if status s = js ''completed'' \<or> status s = js ''failed'' then 100
      else if total_records s = 0 then 50
      else (100 * int (processed s + failed s + skipped s)) div int (total_records s))"

text \<open>An upload in progress: 29 of 100 records processed.\<close>

definition status_29_of_100 :: upload_status where
  "status_29_of_100 =
     \<lparr>status = js ''processing'', total_records = 100, processed = 29, skipped = 0, failed = 0\<rparr>"

section \<open>The upload service, modelled from the specification\<close>

text \<open>
  The sources hold the front end, the database scripts and the Dockerfile of the upload
  service, but not the service: its validator, registry client, job store and worker are
  modelled here from sections 3, 4 and 7 of the specification.
\<close>

text \<open>Modelled from the spec: the states of an UploadJob (section 3), absent from the sources.\<close>

datatype job_status = Pending | Processing | Completed | Failed

text \<open>
  Modelled from the spec: the \<open>message\<close> of an UploadJob, absent from the sources. The
  specification fixes when it is written, not its wording: at creation, "parsing file"
  when the worker starts, the cause of a file-level failure, the totals at completion,
  "registry unavailable" at a dependency outage.
\<close>

datatype job_message =
    MsgAccepted
  | MsgParsingFile
  | MsgFileFailure
  | MsgTotals nat nat nat nat
  | MsgRegistryUnavailable

text \<open>
  Modelled from the spec: the row-level reasons of the error taxonomy (section 7), absent
  from the sources.
\<close>

datatype reason =
    BadLength
  | BadPattern
  | MissingField
  | InconsistentHeadquartersFlag
  | PermanentRejection
  | TransientExhausted

text \<open>
  Modelled from the spec: the UploadJob record (section 3), absent from the sources.
\<close>

record UploadJob =
  job_id :: nat
  job_filename :: js_string
  job_status :: job_status
  job_total_records :: nat
  job_processed :: nat
  job_skipped :: nat
  job_failed :: nat
  job_error_details :: "(js_string \<times> reason) list"
  job_message :: job_message
  job_created_at :: nat

text \<open>
  Modelled from the spec: the ValidationOutcome of the Record Validator (section 3),
  absent from the sources. A NormalizedRecord has the fields of \<open>formData\<close>.
\<close>

datatype ValidationOutcome = Accepted formData | Rejected reason

text \<open>
  Modelled from the spec: the outcomes of the Registry Client (section 4.2), absent from
  the sources.
\<close>

datatype Outcome = Created | DuplicateRejected | TransientFailure | PermanentFailure

text \<open>
  Modelled from the spec: what a worker is given besides the file, absent from the sources:
  the Record Validator (section 4.1) and the identifier it reports for a row, the bound
  on the attempts of one submission and the threshold of consecutive unreachable
  submissions (section 4.2), and the environment: whether the registry can be reached at
  the n-th call made to it, and which records it rejects for a reason other than
  duplication.
\<close>

record 'row worker_setting =
  validate :: "'row \<Rightarrow> ValidationOutcome"
  record_identifier :: "'row \<Rightarrow> js_string"
  max_attempts :: nat
  failure_threshold :: nat
  reachable :: "nat \<Rightarrow> bool"
  refuses :: "formData \<Rightarrow> bool"

text \<open>
  Modelled from the spec: the state that a worker reads and writes, absent from the
  sources: its job in the Job Store, the identifiers that the registry holds, the number
  of calls made to the registry, and the number of consecutive submissions that found it
  unreachable.
\<close>

record worker_state =
  job :: UploadJob
  registry :: "js_string list"
  calls :: nat
  consecutive_failures :: nat

text \<open>
  Modelled from the spec: \<open>create(filename)\<close> of the Job Store (section 4.3), absent from
  the sources: initial status \<open>pending\<close>, \<open>total_records\<close> 0 until parsing completes.
\<close>

definition create :: "nat \<Rightarrow> nat \<Rightarrow> js_string \<Rightarrow> UploadJob" where
  "create new_id now name =
     \<lparr>job_id = new_id, job_filename = name, job_status = Pending, job_total_records = 0,
      job_processed = 0, job_skipped = 0, job_failed = 0, job_error_details = [],
      job_message = MsgAccepted, job_created_at = now\<rparr>"

text \<open>
  Modelled from the spec: the call of the backing service (section 6, outbound), absent
  from the sources: "create record, fail if an identifier collision exists".
\<close>

definition registry_create ::
  "'row worker_setting \<Rightarrow> js_string list \<Rightarrow> formData \<Rightarrow> Outcome \<times> js_string list" where
  "registry_create cfg reg r =
     (if swiftCode r \<in> set reg then (DuplicateRejected, reg)
      else if refuses cfg r then (PermanentFailure, reg)
      else (Created, swiftCode r # reg))"

text \<open>
  Modelled from the spec: \<open>submit(record)\<close> of the Registry Client (section 4.2), absent
  from the sources: a transient failure is retried up to the bound on attempts.
\<close>

fun submit ::
  "'row worker_setting \<Rightarrow> nat \<Rightarrow> js_string list \<Rightarrow> nat \<Rightarrow> formData
     \<Rightarrow> Outcome \<times> js_string list \<times> nat" where
  "submit cfg 0 reg n r = (TransientFailure, reg, n)"
| "submit cfg (Suc attempts) reg n r =
     (if reachable cfg n
      then (fst (registry_create cfg reg r), snd (registry_create cfg reg r), Suc n)
      else submit cfg attempts reg (Suc n) r)"

text \<open>
  Modelled from the spec: the update of a job for a failed row (section 4.4), absent from
  the sources: increment \<open>failed\<close> and append to \<open>error_details\<close>.
\<close>

definition record_failure :: "UploadJob \<Rightarrow> js_string \<Rightarrow> reason \<Rightarrow> UploadJob" where
  "record_failure j ident why =
     j\<lparr>job_failed := job_failed j + 1,
       job_error_details := job_error_details j @ [(ident, why)]\<rparr>"

text \<open>
  Modelled from the spec: the per-row algorithm of the Ingestion Worker (section 4.4),
  absent from the sources.
\<close>

definition process_row :: "'row worker_setting \<Rightarrow> worker_state \<Rightarrow> 'row \<Rightarrow> worker_state" where
  "process_row cfg st row =
     (case validate cfg row of
        Rejected why \<Rightarrow> st\<lparr>job := record_failure (job st) (record_identifier cfg row) why\<rparr>
      | Accepted r \<Rightarrow>
          (case submit cfg (max_attempts cfg) (registry st) (calls st) r of
             (Created, reg, n) \<Rightarrow>
               st\<lparr>job := (job st)\<lparr>job_processed := job_processed (job st) + 1\<rparr>,
                  registry := reg, calls := n, consecutive_failures := 0\<rparr>
           | (DuplicateRejected, reg, n) \<Rightarrow>
               st\<lparr>job := (job st)\<lparr>job_skipped := job_skipped (job st) + 1\<rparr>,
                  registry := reg, calls := n, consecutive_failures := 0\<rparr>
           | (PermanentFailure, reg, n) \<Rightarrow>
               st\<lparr>job := record_failure (job st) (swiftCode r) PermanentRejection,
                  registry := reg, calls := n, consecutive_failures := 0\<rparr>
           | (TransientFailure, reg, n) \<Rightarrow>
               st\<lparr>job := record_failure (job st) (swiftCode r) TransientExhausted,
                  registry := reg, calls := n,
                  consecutive_failures := consecutive_failures st + 1\<rparr>))"

text \<open>
  Modelled from the spec: the transition of the Ingestion Worker to \<open>completed\<close> when all
  rows are consumed (section 4.4), absent from the sources; the message summarizes the
  totals.
\<close>

definition finish :: "worker_state \<Rightarrow> worker_state" where
  "finish st =
     st\<lparr>job := (job st)\<lparr>job_status := Completed,
            job_message := MsgTotals (job_total_records (job st)) (job_processed (job st))
              (job_skipped (job st)) (job_failed (job st))\<rparr>\<rparr>"

text \<open>
  Modelled from the spec: the transition of the Ingestion Worker to \<open>failed\<close> (section 4.4),
  absent from the sources, with the message that names the cause.
\<close>

definition fail_with :: "job_message \<Rightarrow> worker_state \<Rightarrow> worker_state" where
  "fail_with msg st = st\<lparr>job := (job st)\<lparr>job_status := Failed, job_message := msg\<rparr>\<rparr>"

text \<open>
  Modelled from the spec: the loop of the Ingestion Worker over the rows (section 4.4),
  absent from the sources. The result lists the successive states of the worker: after
  every row, and after the terminal transition.
\<close>

fun consume :: "'row worker_setting \<Rightarrow> worker_state \<Rightarrow> 'row list \<Rightarrow> worker_state list" where
  "consume cfg st [] = [finish st]"
| "consume cfg st (row # rows) =
     (let st' = process_row cfg st row
      in if failure_threshold cfg < consecutive_failures st'
         then [st', fail_with MsgRegistryUnavailable st']
         else st' # consume cfg st' rows)"

text \<open>
  Modelled from the spec: the Ingestion Worker (section 4.4), absent from the sources. The
  file is \<open>None\<close> when it cannot be read or parsed, and a file without a row is a
  file-level failure. The result lists the successive states, the given one first.
\<close>

definition worker ::
  "'row worker_setting \<Rightarrow> 'row list option \<Rightarrow> worker_state \<Rightarrow> worker_state list" where
  "worker cfg file st =
     (let started = st\<lparr>job := (job st)\<lparr>job_status := Processing, job_message := MsgParsingFile\<rparr>\<rparr>
      in st # started #
         (case file of
            None \<Rightarrow> [fail_with MsgFileFailure started]
          | Some rows \<Rightarrow>
              if rows = [] then [fail_with MsgFileFailure started]
              else (let parsed = started\<lparr>job := (job started)\<lparr>job_total_records := length rows\<rparr>\<rparr>
                    in parsed # consume cfg parsed rows)))"

text \<open>
  Modelled from the spec: the state in which the Upload Service Facade launches the worker
  of an accepted upload (section 4.5), absent from the sources: a job just created, the
  registry and the number of calls made to it as they are at that time.
\<close>

definition new_worker ::
  "nat \<Rightarrow> nat \<Rightarrow> js_string \<Rightarrow> js_string list \<Rightarrow> nat \<Rightarrow> worker_state" where
  "new_worker new_id now name reg n =
     \<lparr>job = create new_id now name, registry = reg, calls = n, consecutive_failures = 0\<rparr>"

text \<open>The sum of the three counters, and their order from one state of a job to a later one.\<close>

definition counted :: "UploadJob \<Rightarrow> nat" where
  "counted j = job_processed j + job_skipped j + job_failed j"

definition counters_le :: "UploadJob \<Rightarrow> UploadJob \<Rightarrow> bool" where
  "counters_le j j' \<longleftrightarrow>
     job_processed j \<le> job_processed j' \<and> job_skipped j \<le> job_skipped j'
       \<and> job_failed j \<le> job_failed j'"

text \<open>
  A job is terminal when it is completed or failed. A terminal job is settled when its
  counters add up to \<open>total_records\<close>, or when it failed with the message of a dependency
  outage and its counters do not exceed \<open>total_records\<close>.
\<close>

definition terminal :: "UploadJob \<Rightarrow> bool" where
  "terminal j \<longleftrightarrow> job_status j = Completed \<or> job_status j = Failed"

definition settled :: "UploadJob \<Rightarrow> bool" where
  "settled j \<longleftrightarrow>
     (job_status j = Completed \<and> counted j = job_total_records j)
     \<or> (job_status j = Failed \<and> job_message j = MsgFileFailure
          \<and> counted j = job_total_records j)
     \<or> (job_status j = Failed \<and> job_message j = MsgRegistryUnavailable
          \<and> counted j \<le> job_total_records j)"

section \<open>Invariants and example inputs\<close>

text \<open>
  The headquarters flag agrees with the identifier wherever the checkbox is disabled.
\<close>

definition hq_consistent :: "formData \<Rightarrow> bool" where
  "hq_consistent fd \<longleftrightarrow> (checkbox_disabled fd \<longrightarrow> isHeadquarter fd)"

text \<open>Two filled forms: a valid one, and one with an identifier of seven characters.\<close>

definition form_DEUTDEFF :: formData where
  "form_DEUTDEFF =
     \<lparr>swiftCode = js ''DEUTDEFF'', address = js ''Taunusanlage 12'',
      countryISO2 = js ''DE'', countryName = js ''Germany'', isHeadquarter = False\<rparr>"

definition form_BADCODE :: formData where
  "form_BADCODE = form_DEUTDEFF\<lparr>swiftCode := js ''BADCODE''\<rparr>"

text \<open>The valid form with the flag set and the address left empty.\<close>

definition form_flagged :: formData where
  "form_flagged = form_DEUTDEFF\<lparr>address := [], isHeadquarter := True\<rparr>"

text \<open>
  A user who unticks the checkbox, types an identifier in lower case, tries to untick
  again, selects the country and types the address.
\<close>

definition events_untick :: "form_event list" where
  "events_untick =
     [Change (HeadquarterCheckbox False), SwiftCodeChange (js ''deutdeffxxx''),
      Change (HeadquarterCheckbox False), CountrySelect (js ''DE''),
      Change (AddressInput (js ''Taunusanlage 12''))]"

text \<open>
  The reading of section 4.1 of the specification in the words of the form: all the
  checks in one sequence, of which only the first violated one is reported.
\<close>

definition spec_first_failure :: "formData \<Rightarrow> string list" where
  "spec_first_failure fd =
     first_failure
       [(swiftCode fd = [], ''SWIFT code is required''),
        (length (swiftCode fd) \<notin> set [8, 11],
           ''SWIFT code must be either 8 or 11 characters long''),
        (\<not> regex_test swift_pattern (swiftCode fd), ''Invalid SWIFT code format''),
        (length (swiftCode fd) = 11 \<and> endsWith (swiftCode fd) (js ''XXX'') \<and> \<not> isHeadquarter fd,
           ''SWIFT codes ending with XXX must be headquarters''),
        (isHeadquarter fd
           \<and> (\<not> endsWith (swiftCode fd) (js ''XXX'') \<or> length (swiftCode fd) \<noteq> 11),
           ''Only SWIFT codes ending with XXX can be headquarters''),
        (countryISO2 fd = [], ''Country code is required''),
        (length (countryISO2 fd) \<noteq> 2, ''Country code must be exactly 2 characters''),
        (\<not> regex_test letters_pattern (countryISO2 fd),
           ''Country code must contain only letters''),
        (countryName fd = [], ''Country name is required''),
        (address fd = [], ''Address is required'')]"

text \<open>
  Clients for the examples: one whose count endpoint answers 404 and whose listing returns
  the given records, one that answers every request with 200, one that is unreachable.
\<close>

definition client_without_count :: "json list \<Rightarrow> http_client" where
  "client_without_count records request =
     (if path request = ''/api/v1/swift-code/count'' then Inl (HttpError 404)
      else Inr \<lparr>http_response.status = 200, data = JArray records\<rparr>)"

definition no_params :: count_params where
  "no_params = \<lparr>country = None, isHeadquarter_filter = None\<rparr>"

definition client_healthy :: http_client where
  "client_healthy request =
     Inr \<lparr>http_response.status = 200, data = JObject [(''status'', JString (js ''ok''))]\<rparr>"

definition client_down :: http_client where
  "client_down request = Inl NetworkError"

text \<open>
  A worker for the examples. Its rows have the fields of the form and its validator runs
  the checks of the form; it makes at most 3 attempts per record and gives up after more
  than one consecutive unreachable submission; the registry refuses nothing.
\<close>

definition form_validator :: "formData \<Rightarrow> ValidationOutcome" where
  "form_validator fd =
     (if swiftCode fd = [] \<or> length (swiftCode fd) \<notin> set [8, 11] then Rejected BadLength
      else if swiftCode_errors fd \<noteq> [] then Rejected BadPattern
      else if isHeadquarter_errors fd \<noteq> [] then Rejected InconsistentHeadquartersFlag
      else if validateForm fd \<noteq> [] then Rejected MissingField
      else Accepted fd)"

definition example_setting :: "(nat \<Rightarrow> bool) \<Rightarrow> formData worker_setting" where
  "example_setting up =
     \<lparr>validate = form_validator, record_identifier = swiftCode, max_attempts = 3,
      failure_threshold = 1, reachable = up, refuses = (\<lambda>r. False)\<rparr>"

text \<open>The four rows of the example of section 8 of the specification.\<close>

definition form_CHASUS33 :: formData where
  "form_CHASUS33 =
     \<lparr>swiftCode = js ''CHASUS33'', address = js ''270 Park Avenue, New York'',
      countryISO2 = js ''US'', countryName = js ''United States'', isHeadquarter = False\<rparr>"

definition example_rows :: "formData list" where
  "example_rows =
     [form_DEUTDEFF,
      form_DEUTDEFF\<lparr>swiftCode := js ''DEUTDEFFXXX'', isHeadquarter := True\<rparr>,
      form_BADCODE,
      form_CHASUS33]"

text \<open>The worker of an upload of the file \<open>codes.csv\<close>, accepted at time 0.\<close>

definition example_worker :: "nat \<Rightarrow> js_string list \<Rightarrow> nat \<Rightarrow> worker_state" where
  "example_worker new_id reg n = new_worker new_id 0 (js ''codes.csv'') reg n"







section \<open>What the identifier pattern accepts\<close>

lemma rmatch_Rep_Class:
  "rmatch (Rep n (Class p)) s =
     (if n \<le> length s \<and> list_all p (take n s) then [drop n s] else [])"
proof (induction n)
  case 0
  show ?case by simp
next
  case (Suc n)
  show ?case
  proof (cases "n \<le> length s \<and> list_all p (take n s)")
    case False
    then have "rmatch (Rep n (Class p)) s = []" using Suc.IH by simp
    moreover have "\<not> (Suc n \<le> length s \<and> list_all p (take (Suc n) s))"
      using False by (auto simp: take_Suc_conv_app_nth)
    ultimately show ?thesis by simp
  next
    case True
    then have IH: "rmatch (Rep n (Class p)) s = [drop n s]" using Suc.IH by simp
    show ?thesis
    proof (cases "n < length s")
      case False
      with True have "drop n s = []" by simp
      with IH False show ?thesis by simp
    next
      case lt: True
      then have "drop n s = s ! n # drop (Suc n) s"
        by (simp add: Cons_nth_drop_Suc)
      with IH lt True show ?thesis
        by (simp add: take_Suc_conv_app_nth)
    qed
  qed
qed

lemma swift_pattern_iff:
  "regex_test swift_pattern s \<longleftrightarrow>
     (length s = 8 \<or> length s = 11) \<and> list_all cls_AZ (take 4 s)
       \<and> list_all cls_AZ (take 2 (drop 4 s)) \<and> list_all cls_AZ09 (take 2 (drop 6 s))
       \<and> list_all cls_AZ09 (drop 8 s)"
  unfolding regex_test_def swift_pattern_def
  by (auto simp del: rmatch.simps(2) simp add: rmatch.simps(3,4) rmatch_Rep_Class)

lemma plus_match_iff: "[] \<in> set (plus_match p s) \<longleftrightarrow> s \<noteq> [] \<and> list_all p s"
proof (induction s)
  case Nil
  show ?case by simp
next
  case (Cons c cs)
  show ?case
  proof (cases cs)
    case Nil
    then show ?thesis by simp
  next
    case (Cons d ds)
    then show ?thesis using Cons.IH by simp
  qed
qed

lemma letters_pattern_iff:
  "regex_test letters_pattern s \<longleftrightarrow> s \<noteq> [] \<and> list_all cls_AZ s"
  by (simp add: regex_test_def letters_pattern_def plus_match_iff)

section \<open>The identifier check of the creation form\<close>

lemma swiftCode_errors_Nil:
  "swiftCode_errors fd = [] \<longleftrightarrow>
     swiftCode fd \<noteq> [] \<and> (length (swiftCode fd) = 8 \<or> length (swiftCode fd) = 11)
       \<and> regex_test swift_pattern (swiftCode fd)"
  by (simp add: swiftCode_errors_def)

lemma swiftCode_errors_key:
  "swiftCode_errors fd \<noteq> [] \<Longrightarrow> \<exists>msg. swiftCode_errors fd = [(''swiftCode'', msg)]"
  by (simp add: swiftCode_errors_def split: if_splits)

lemmas form_defs =
  handleSubmit_def validateForm_def swiftCode_errors_def isHeadquarter_errors_def
  address_errors_def countryISO2_errors_def countryName_errors_def
  swift_pattern_iff letters_pattern_iff js_def cls_AZ_def cls_AZ09_def endsWith_def

text \<open>
  Claim C1. The form calls the registry (\<open>createSwiftCode\<close>) only with an identifier that
  is present, has length 8 or 11 and matches the pattern: four letters, two letters, two
  letters or digits, and nothing more or three more letters or digits. An identifier that
  is missing, of another length or against the pattern gets a \<open>swiftCode\<close> error, and the
  handler stores the errors instead of calling the registry.
\<close>

theorem valid_identifier_submitted:
  "(handleSubmit fd = CreateSwiftCode r \<longrightarrow>
      r = fd \<and> swiftCode fd \<noteq> []
        \<and> (length (swiftCode fd) = 8 \<or> length (swiftCode fd) = 11)
        \<and> regex_test swift_pattern (swiftCode fd)
        \<and> list_all cls_AZ (take 4 (swiftCode fd))
        \<and> list_all cls_AZ (take 2 (drop 4 (swiftCode fd)))
        \<and> list_all cls_AZ09 (take 2 (drop 6 (swiftCode fd)))
        \<and> list_all cls_AZ09 (drop 8 (swiftCode fd)))
   \<and> (swiftCode fd = [] \<or> \<not> (length (swiftCode fd) = 8 \<or> length (swiftCode fd) = 11)
        \<or> \<not> regex_test swift_pattern (swiftCode fd) \<longrightarrow>
      (\<exists>msg. (''swiftCode'', msg) \<in> set (validateForm fd))
        \<and> handleSubmit fd = SetValidationErrors (validateForm fd))"
proof (cases "swiftCode_errors fd = []")
  case True
  then have "regex_test swift_pattern (swiftCode fd)"
    by (simp add: swiftCode_errors_Nil)
  with True show ?thesis
    using swift_pattern_iff [of "swiftCode fd"]
    by (auto simp: swiftCode_errors_Nil handleSubmit_def Let_def)
next
  case False
  then obtain msg where "swiftCode_errors fd = [(''swiftCode'', msg)]"
    using swiftCode_errors_key by blast
  then have "(''swiftCode'', msg) \<in> set (validateForm fd)" "validateForm fd \<noteq> []"
    by (simp_all add: validateForm_def)
  with False show ?thesis
    by (auto simp: swiftCode_errors_Nil handleSubmit_def Let_def)
qed

theorem valid_identifier_submitted_witness:
  "handleSubmit form_DEUTDEFF = CreateSwiftCode form_DEUTDEFF
   \<and> length (swiftCode form_DEUTDEFF) = 8
   \<and> regex_test swift_pattern (swiftCode form_DEUTDEFF)
   \<and> \<not> (length (swiftCode form_BADCODE) = 8 \<or> length (swiftCode form_BADCODE) = 11)
   \<and> handleSubmit form_BADCODE
       = SetValidationErrors
           [(''swiftCode'', ''SWIFT code must be either 8 or 11 characters long'')]"
proof -
  have ok: "handleSubmit form_DEUTDEFF = CreateSwiftCode form_DEUTDEFF"
    by (simp add: form_DEUTDEFF_def form_defs)
  have len: "length (swiftCode form_DEUTDEFF) = 8"
    by (simp add: form_DEUTDEFF_def js_def)
  have bad: "\<not> (length (swiftCode form_BADCODE) = 8 \<or> length (swiftCode form_BADCODE) = 11)"
    by (simp add: form_BADCODE_def js_def)
  have errs: "validateForm form_BADCODE
       = [(''swiftCode'', ''SWIFT code must be either 8 or 11 characters long'')]"
    by (simp add: form_BADCODE_def form_DEUTDEFF_def form_defs)
  have "regex_test swift_pattern (swiftCode form_DEUTDEFF)"
    using valid_identifier_submitted [of form_DEUTDEFF form_DEUTDEFF] ok by blast
  moreover have "handleSubmit form_BADCODE = SetValidationErrors (validateForm form_BADCODE)"
    using valid_identifier_submitted [of form_BADCODE] bad by blast
  ultimately show ?thesis
    using ok len bad errs by (simp only: simp_thms)
qed

section \<open>The headquarters flag of the creation form\<close>

lemma hq_consistent_step: "hq_consistent fd \<Longrightarrow> hq_consistent (form_step up fd ev)"
proof (cases ev)
  case (SwiftCodeChange v)
  then show ?thesis
    by (simp add: hq_consistent_def checkbox_disabled_def handleSwiftCodeChange_def Let_def)
next
  case (Change t)
  assume "hq_consistent fd"
  with Change show ?thesis
    by (cases t) (auto simp: hq_consistent_def checkbox_disabled_def)
next
  case (CountrySelect c)
  assume "hq_consistent fd"
  with CountrySelect show ?thesis
    by (simp add: hq_consistent_def checkbox_disabled_def handleCountrySelect_def Let_def)
qed

lemma hq_consistent_foldl:
  "hq_consistent fd \<Longrightarrow> hq_consistent (foldl (form_step up) fd evs)"
  by (induction evs arbitrary: fd) (simp_all add: hq_consistent_step)

lemma hq_consistent_run: "hq_consistent (form_run up evs)"
  unfolding form_run_def
  by (rule hq_consistent_foldl) (simp add: hq_consistent_def checkbox_disabled_def initialFormData_def)

text \<open>
  Claim C2. Whatever the headquarters flag was before, typing an identifier that (in upper
  case) has 11 characters and ends in \<open>XXX\<close> sets the flag. The checkbox is disabled for
  such an identifier, so after any sequence of events of the form an identifier of 11
  characters ending in \<open>XXX\<close> goes with a set flag, the check of the flag in
  \<open>validateForm\<close> reports nothing, and a record sent to the registry is a headquarters.
\<close>

theorem headquarters_derived_from_suffix:
  "(length (toUpperCase v) = 11 \<and> endsWith (toUpperCase v) (js ''XXX'') \<longrightarrow>
      isHeadquarter (handleSwiftCodeChange toUpperCase (fd\<lparr>isHeadquarter := flag\<rparr>) v))
   \<and> (length (swiftCode (form_run toUpperCase evs)) = 11
        \<and> endsWith (swiftCode (form_run toUpperCase evs)) (js ''XXX'') \<longrightarrow>
      isHeadquarter (form_run toUpperCase evs)
        \<and> isHeadquarter_errors (form_run toUpperCase evs) = []
        \<and> (\<forall>r. handleSubmit (form_run toUpperCase evs) = CreateSwiftCode r \<longrightarrow>
               isHeadquarter r))"
proof -
  have "hq_consistent (form_run toUpperCase evs)"
    by (rule hq_consistent_run)
  then show ?thesis
    by (auto simp: hq_consistent_def checkbox_disabled_def handleSwiftCodeChange_def Let_def
        isHeadquarter_errors_def handleSubmit_def split: if_splits)
qed

lemma run_untick:
  "form_run ascii_upper events_untick =
     \<lparr>swiftCode = js ''DEUTDEFFXXX'', address = js ''Taunusanlage 12'',
      countryISO2 = js ''DE'', countryName = js ''Germany'', isHeadquarter = True\<rparr>"
  by (simp add: form_run_def events_untick_def handleSwiftCodeChange_def ascii_upper_def
      checkbox_disabled_def endsWith_def handleCountrySelect_def countryOptions_def js_def)

theorem headquarters_derived_from_suffix_witness:
  "length (ascii_upper (js ''deutdeffxxx'')) = 11
   \<and> endsWith (ascii_upper (js ''deutdeffxxx'')) (js ''XXX'')
   \<and> isHeadquarter (handleSwiftCodeChange ascii_upper (initialFormData\<lparr>isHeadquarter := False\<rparr>)
        (js ''deutdeffxxx''))
   \<and> length (swiftCode (form_run ascii_upper events_untick)) = 11
   \<and> endsWith (swiftCode (form_run ascii_upper events_untick)) (js ''XXX'')
   \<and> isHeadquarter (form_run ascii_upper events_untick)
   \<and> handleSubmit (form_run ascii_upper events_untick)
       = CreateSwiftCode (form_run ascii_upper events_untick)"
proof -
  have a: "length (ascii_upper (js ''deutdeffxxx'')) = 11
      \<and> endsWith (ascii_upper (js ''deutdeffxxx'')) (js ''XXX'')"
    by (simp add: ascii_upper_def js_def endsWith_def)
  have b: "length (swiftCode (form_run ascii_upper events_untick)) = 11
      \<and> endsWith (swiftCode (form_run ascii_upper events_untick)) (js ''XXX'')"
    by (simp add: run_untick) (simp add: js_def endsWith_def)
  have c: "handleSubmit (form_run ascii_upper events_untick)
       = CreateSwiftCode (form_run ascii_upper events_untick)"
    by (simp add: run_untick) (simp add: form_defs)
  have "isHeadquarter (handleSwiftCodeChange ascii_upper (initialFormData\<lparr>isHeadquarter := False\<rparr>)
        (js ''deutdeffxxx''))"
    using headquarters_derived_from_suffix
      [where toUpperCase = ascii_upper and v = "js ''deutdeffxxx''" and fd = initialFormData
         and flag = False]
      a by blast
  moreover have "isHeadquarter (form_run ascii_upper events_untick)"
    using headquarters_derived_from_suffix [where toUpperCase = ascii_upper and evs = events_untick] b by blast
  ultimately show ?thesis
    using a b c by (simp only: simp_thms)
qed

section \<open>The counters of a job\<close>

lemma process_row_job:
  "counted (job (process_row cfg st row)) = counted (job st) + 1
   \<and> job_total_records (job (process_row cfg st row)) = job_total_records (job st)
   \<and> job_status (job (process_row cfg st row)) = job_status (job st)
   \<and> job_message (job (process_row cfg st row)) = job_message (job st)
   \<and> counters_le (job st) (job (process_row cfg st row))"
  by (simp add: process_row_def record_failure_def counted_def counters_le_def
      split: ValidationOutcome.splits prod.splits Outcome.splits)

lemma counters_le_refl: "counters_le j j"
  by (simp add: counters_le_def)

lemma counters_le_trans: "counters_le a b \<Longrightarrow> counters_le b c \<Longrightarrow> counters_le a c"
  by (auto simp: counters_le_def)

lemma terminal_job:
  "counted (job (finish st)) = counted (job st)"
  "job_total_records (job (finish st)) = job_total_records (job st)"
  "counters_le (job st) (job (finish st))"
  "counted (job (fail_with msg st)) = counted (job st)"
  "job_total_records (job (fail_with msg st)) = job_total_records (job st)"
  "counters_le (job st) (job (fail_with msg st))"
  by (simp_all add: finish_def fail_with_def counted_def counters_le_def)

lemma consume_bounded:
  "counted (job st) + length rows = job_total_records (job st) \<Longrightarrow>
   s \<in> set (consume cfg st rows) \<Longrightarrow>
   counted (job s) \<le> job_total_records (job s)"
proof (induction rows arbitrary: st)
  case Nil
  then show ?case by (simp add: terminal_job)
next
  case (Cons row rows)
  let ?st' = "process_row cfg st row"
  have inv: "counted (job ?st') + length rows = job_total_records (job ?st')"
    using Cons.prems(1) by (simp add: process_row_job)
  show ?case
  proof (cases "failure_threshold cfg < consecutive_failures ?st'")
    case True
    with Cons.prems(2) have "s = ?st' \<or> s = fail_with MsgRegistryUnavailable ?st'"
      by (simp add: Let_def)
    with inv show ?thesis by (auto simp: terminal_job)
  next
    case False
    with Cons.prems(2) have "s = ?st' \<or> s \<in> set (consume cfg ?st' rows)"
      by (simp add: Let_def)
    with inv Cons.IH [of ?st'] show ?thesis by auto
  qed
qed

lemma consume_above:
  "s \<in> set (consume cfg st rows) \<Longrightarrow> counters_le (job st) (job s)"
proof (induction rows arbitrary: st)
  case Nil
  then show ?case by (simp add: terminal_job)
next
  case (Cons row rows)
  let ?st' = "process_row cfg st row"
  have step: "counters_le (job st) (job ?st')"
    by (simp add: process_row_job)
  show ?case
  proof (cases "failure_threshold cfg < consecutive_failures ?st'")
    case True
    with Cons.prems have "s = ?st' \<or> s = fail_with MsgRegistryUnavailable ?st'"
      by (simp add: Let_def)
    with step show ?thesis
      by (auto intro: counters_le_trans [OF step] simp: terminal_job)
  next
    case False
    with Cons.prems have "s = ?st' \<or> s \<in> set (consume cfg ?st' rows)"
      by (simp add: Let_def)
    with step Cons.IH [of ?st'] show ?thesis
      by (auto intro: counters_le_trans [OF step])
  qed
qed

lemma consume_sorted: "sorted_wrt counters_le (map job (consume cfg st rows))"
proof (induction rows arbitrary: st)
  case Nil
  show ?case by simp
next
  case (Cons row rows)
  let ?st' = "process_row cfg st row"
  show ?case
  proof (cases "failure_threshold cfg < consecutive_failures ?st'")
    case True
    then show ?thesis by (simp add: Let_def terminal_job)
  next
    case False
    then show ?thesis using Cons.IH [of ?st'] consume_above [of _ cfg ?st' rows]
      by (auto simp: Let_def)
  qed
qed

text \<open>
  Claim C3. In every state of a job that its worker goes through, from creation to the
  terminal state (so also in every state after \<open>total_records\<close> is set), the sum of
  \<open>processed\<close>, \<open>skipped\<close> and \<open>failed\<close> is at most \<open>total_records\<close>, and none of the three
  counters is ever smaller in a later state than in an earlier one.
\<close>

theorem counters_bounded_and_monotone:
  assumes "job st = create new_id now name"
  shows "(\<forall>s \<in> set (worker cfg file st). counted (job s) \<le> job_total_records (job s))
     \<and> sorted_wrt counters_le (map job (worker cfg file st))"
proof -
  define started where
    "started = st\<lparr>job := (job st)\<lparr>job_status := Processing, job_message := MsgParsingFile\<rparr>\<rparr>"
  have zero: "counted (job st) = 0" "job_total_records (job st) = 0"
    "counted (job started) = 0" "job_total_records (job started) = 0"
    using assms by (simp_all add: create_def counted_def started_def)
  have le0: "counters_le (job st) j" "counters_le (job started) j" for j
    using assms by (simp_all add: create_def counters_le_def started_def)
  show ?thesis
  proof (cases "file = None \<or> file = Some []")
    case True
    then have "worker cfg file st = [st, started, fail_with MsgFileFailure started]"
      by (auto simp: worker_def started_def Let_def)
    then show ?thesis using zero le0 by (simp add: terminal_job)
  next
    case False
    then obtain rows where rows: "file = Some rows" "rows \<noteq> []" by auto
    define parsed where
      "parsed = started\<lparr>job := (job started)\<lparr>job_total_records := length rows\<rparr>\<rparr>"
    have w: "worker cfg file st = st # started # parsed # consume cfg parsed rows"
      using rows by (simp add: worker_def started_def parsed_def Let_def)
    have inv: "counted (job parsed) + length rows = job_total_records (job parsed)"
      using zero by (simp add: parsed_def counted_def)
    have p0: "counted (job parsed) = 0"
      using zero by (simp add: parsed_def counted_def)
    have lep: "counters_le (job parsed) j" for j
      using assms by (simp add: create_def counters_le_def started_def parsed_def)
    have "\<forall>s \<in> set (consume cfg parsed rows). counted (job s) \<le> job_total_records (job s)"
      using consume_bounded [OF inv] by blast
    moreover have "sorted_wrt counters_le (map job (consume cfg parsed rows))"
      by (rule consume_sorted)
    ultimately show ?thesis
      unfolding w using zero p0 le0 lep by simp
  qed
qed

lemma example_run_final:
  "job (last (worker (example_setting (\<lambda>n. True)) (Some example_rows) (example_worker 1 [] 0)))
     = \<lparr>job_id = 1, job_filename = js ''codes.csv'', job_status = Completed,
        job_total_records = 4, job_processed = 3, job_skipped = 0, job_failed = 1,
        job_error_details = [(js ''BADCODE'', BadLength)],
        job_message = MsgTotals 4 3 0 1, job_created_at = 0\<rparr>"
  by code_simp

lemma example_outage_final:
  "job (last (worker (example_setting (\<lambda>n. False)) (Some example_rows) (example_worker 1 [] 0)))
     = \<lparr>job_id = 1, job_filename = js ''codes.csv'', job_status = Failed,
        job_total_records = 4, job_processed = 0, job_skipped = 0, job_failed = 2,
        job_error_details =
          [(js ''DEUTDEFF'', TransientExhausted), (js ''DEUTDEFFXXX'', TransientExhausted)],
        job_message = MsgRegistryUnavailable, job_created_at = 0\<rparr>"
  by code_simp

lemma worker_not_Nil: "worker cfg file st \<noteq> []"
  by (simp add: worker_def Let_def)

theorem counters_bounded_and_monotone_witness:
  "job (example_worker 1 [] 0) = create 1 0 (js ''codes.csv'')
   \<and> counted (job (last (worker (example_setting (\<lambda>n. True)) (Some example_rows)
          (example_worker 1 [] 0)))) = 4
   \<and> counted (job (last (worker (example_setting (\<lambda>n. True)) (Some example_rows)
          (example_worker 1 [] 0))))
       \<le> job_total_records (job (last (worker (example_setting (\<lambda>n. True))
            (Some example_rows) (example_worker 1 [] 0))))
   \<and> sorted_wrt counters_le (map job (worker (example_setting (\<lambda>n. True)) (Some example_rows)
          (example_worker 1 [] 0)))"
proof -
  let ?run = "worker (example_setting (\<lambda>n. True)) (Some example_rows) (example_worker 1 [] 0)"
  have new: "job (example_worker 1 [] 0) = create 1 0 (js ''codes.csv'')"
    by (simp add: example_worker_def new_worker_def)
  have "last ?run \<in> set ?run"
    by (rule last_in_set) (rule worker_not_Nil)
  then have "counted (job (last ?run)) \<le> job_total_records (job (last ?run))"
    using counters_bounded_and_monotone [OF new] by blast
  moreover have "sorted_wrt counters_le (map job ?run)"
    using counters_bounded_and_monotone [OF new] by blast
  moreover have "counted (job (last ?run)) = 4"
    unfolding counted_def example_run_final by simp
  ultimately show ?thesis using new by (simp only: simp_thms)
qed

lemma consume_settled:
  "counted (job st) + length rows = job_total_records (job st) \<Longrightarrow>
   job_status (job st) = Processing \<Longrightarrow>
   s \<in> set (consume cfg st rows) \<Longrightarrow>
   job_status (job s) = Processing \<or> settled (job s)"
proof (induction rows arbitrary: st)
  case Nil
  then show ?case by (simp add: settled_def finish_def counted_def)
next
  case (Cons row rows)
  let ?st' = "process_row cfg st row"
  have inv: "counted (job ?st') + length rows = job_total_records (job ?st')"
    "job_status (job ?st') = Processing"
    using Cons.prems(1,2) by (simp_all add: process_row_job)
  show ?case
  proof (cases "failure_threshold cfg < consecutive_failures ?st'")
    case True
    with Cons.prems(3) have "s = ?st' \<or> s = fail_with MsgRegistryUnavailable ?st'"
      by (simp add: Let_def)
    then show ?thesis
    proof
      assume "s = ?st'"
      with inv show ?thesis by simp
    next
      assume s: "s = fail_with MsgRegistryUnavailable ?st'"
      have "counted (job s) \<le> job_total_records (job s)"
        using inv(1) by (simp add: s terminal_job)
      then show ?thesis
        by (simp add: settled_def s fail_with_def)
    qed
  next
    case False
    with Cons.prems(3) have "s = ?st' \<or> s \<in> set (consume cfg ?st' rows)"
      by (simp add: Let_def)
    with inv Cons.IH [of ?st'] show ?thesis by auto
  qed
qed

lemma consume_last_terminal: "terminal (job (last (consume cfg st rows)))"
proof (induction rows arbitrary: st)
  case Nil
  show ?case by (simp add: terminal_def finish_def)
next
  case (Cons row rows)
  have "consume cfg st' rows \<noteq> []" for st'
    by (cases rows) (simp_all add: Let_def)
  with Cons.IH show ?case
    by (simp add: Let_def terminal_def fail_with_def)
qed

text \<open>
  Claim C4. A worker ends in a terminal state, and in every terminal state of its job
  the three counters add up to \<open>total_records\<close>, except after a dependency outage: then
  the job is failed, its message is the one of the outage, and the counters add up to at
  most \<open>total_records\<close>.
\<close>

theorem terminal_counters:
  assumes "job st = create new_id now name"
  shows "terminal (job (last (worker cfg file st)))
     \<and> (\<forall>s \<in> set (worker cfg file st).
          terminal (job s) \<longrightarrow>
            counted (job s) = job_total_records (job s)
            \<or> (job_status (job s) = Failed \<and> job_message (job s) = MsgRegistryUnavailable
                \<and> counted (job s) \<le> job_total_records (job s)))"
proof -
  define started where
    "started = st\<lparr>job := (job st)\<lparr>job_status := Processing, job_message := MsgParsingFile\<rparr>\<rparr>"
  have st: "\<not> terminal (job st)" "\<not> terminal (job started)"
    using assms by (simp_all add: create_def terminal_def started_def)
  have zero: "counted (job started) = 0" "job_total_records (job started) = 0"
    using assms by (simp_all add: create_def counted_def started_def)
  show ?thesis
  proof (cases "file = None \<or> file = Some []")
    case True
    then have w: "worker cfg file st = [st, started, fail_with MsgFileFailure started]"
      by (auto simp: worker_def started_def Let_def)
    have "terminal (job (fail_with MsgFileFailure started))"
      by (simp add: terminal_def fail_with_def)
    then show ?thesis unfolding w using st zero by (simp add: terminal_job)
  next
    case False
    then obtain rows where rows: "file = Some rows" "rows \<noteq> []" by auto
    define parsed where
      "parsed = started\<lparr>job := (job started)\<lparr>job_total_records := length rows\<rparr>\<rparr>"
    have w: "worker cfg file st = st # started # parsed # consume cfg parsed rows"
      using rows by (simp add: worker_def started_def parsed_def Let_def)
    have inv: "counted (job parsed) + length rows = job_total_records (job parsed)"
      "job_status (job parsed) = Processing"
      using zero by (simp_all add: parsed_def counted_def started_def)
    have p: "\<not> terminal (job parsed)"
      using inv(2) by (simp add: terminal_def)
    have ne: "consume cfg parsed rows \<noteq> []"
      by (cases rows) (simp_all add: Let_def)
    have "s \<in> set (consume cfg parsed rows) \<Longrightarrow> terminal (job s) \<Longrightarrow>
        counted (job s) = job_total_records (job s)
        \<or> (job_status (job s) = Failed \<and> job_message (job s) = MsgRegistryUnavailable
            \<and> counted (job s) \<le> job_total_records (job s))" for s
      using consume_settled [OF inv, of s cfg] by (auto simp: terminal_def settled_def)
    moreover have "terminal (job (last (consume cfg parsed rows)))"
      by (rule consume_last_terminal)
    ultimately show ?thesis
      unfolding w using st p ne by auto
  qed
qed

theorem terminal_counters_witness:
  "job (example_worker 1 [] 0) = create 1 0 (js ''codes.csv'')
   \<and> terminal (job (last (worker (example_setting (\<lambda>n. False)) (Some example_rows)
          (example_worker 1 [] 0))))
   \<and> counted (job (last (worker (example_setting (\<lambda>n. False)) (Some example_rows)
          (example_worker 1 [] 0)))) = 2
   \<and> job_total_records (job (last (worker (example_setting (\<lambda>n. False)) (Some example_rows)
          (example_worker 1 [] 0)))) = 4
   \<and> job_message (job (last (worker (example_setting (\<lambda>n. False)) (Some example_rows)
          (example_worker 1 [] 0)))) = MsgRegistryUnavailable
   \<and> terminal (job (last (worker (example_setting (\<lambda>n. True)) (Some example_rows)
          (example_worker 1 [] 0))))
   \<and> counted (job (last (worker (example_setting (\<lambda>n. True)) (Some example_rows)
          (example_worker 1 [] 0)))) = 4
   \<and> job_total_records (job (last (worker (example_setting (\<lambda>n. True)) (Some example_rows)
          (example_worker 1 [] 0)))) = 4"
proof -
  let ?out = "worker (example_setting (\<lambda>n. False)) (Some example_rows) (example_worker 1 [] 0)"
  let ?run = "worker (example_setting (\<lambda>n. True)) (Some example_rows) (example_worker 1 [] 0)"
  have new: "job (example_worker 1 [] 0) = create 1 0 (js ''codes.csv'')"
    by (simp add: example_worker_def new_worker_def)
  have c: "counted (job (last ?out)) = 2" "job_total_records (job (last ?out)) = 4"
    unfolding counted_def example_outage_final by simp_all
  have d: "counted (job (last ?run)) = 4" "job_total_records (job (last ?run)) = 4"
    unfolding counted_def example_run_final by simp_all
  have t: "terminal (job (last ?out))" "terminal (job (last ?run))"
    using terminal_counters [OF new] by blast+
  have "last ?out \<in> set ?out"
    by (rule last_in_set) (rule worker_not_Nil)
  then have "counted (job (last ?out)) = job_total_records (job (last ?out))
      \<or> job_message (job (last ?out)) = MsgRegistryUnavailable"
    using terminal_counters [OF new, of "example_setting (\<lambda>n. False)" "Some example_rows"] t(1)
    by blast
  with c have "job_message (job (last ?out)) = MsgRegistryUnavailable"
    by simp
  with new c d t show ?thesis by (simp only: simp_thms)
qed

section \<open>One identifier in two uploads\<close>

lemma submit_reachable:
  "reachable cfg n \<Longrightarrow> 0 < attempts \<Longrightarrow>
   submit cfg attempts reg n r
     = (fst (registry_create cfg reg r), snd (registry_create cfg reg r), Suc n)"
  by (cases attempts) simp_all








lemma process_row_no_outage:
  assumes "\<And>k. reachable cfg k" and "0 < max_attempts cfg" and "consecutive_failures st = 0"
  shows "consecutive_failures (process_row cfg st row) = 0"
  using assms
  by (simp add: process_row_def submit_reachable registry_create_def
      split: ValidationOutcome.splits)

lemma rows_no_outage:
  assumes "\<And>k. reachable cfg k" and "0 < max_attempts cfg"
  shows "consecutive_failures st = 0 \<Longrightarrow>
    consecutive_failures (foldl (process_row cfg) st rows) = 0"
  by (induction rows arbitrary: st) (simp_all add: process_row_no_outage [OF assms])










section \<open>How the creation form reports several violations\<close>

lemma first_failure_1: "map snd (if a then [(k, m1)] else []) = first_failure [(a, m1)]"
  by simp

lemma first_failure_2:
  "map snd (if a then [(k, m1)] else if b then [(k, m2)] else [])
     = first_failure [(a, m1), (b, m2)]"
  by simp

lemma first_failure_3:
  "map snd (if a then [(k, m1)] else if b then [(k, m2)] else if c then [(k, m3)] else [])
     = first_failure [(a, m1), (b, m2), (c, m3)]"
  by simp

text \<open>
  Claim C6, as stated, fails on the form: the empty form violates four fields and
  \<open>validateForm\<close> reports four reasons, not only the first.
\<close>

theorem empty_form_reports_four_reasons:
  "map snd (validateForm initialFormData)
     = [''SWIFT code is required'', ''Address is required'', ''Country code is required'',
        ''Country name is required'']
   \<and> spec_first_failure initialFormData = [''SWIFT code is required'']
   \<and> map snd (validateForm initialFormData) \<noteq> spec_first_failure initialFormData"
  by (simp add: spec_first_failure_def initialFormData_def validateForm_def swiftCode_errors_def
      isHeadquarter_errors_def address_errors_def countryISO2_errors_def countryName_errors_def)

text \<open>
  Claim C6, amended. \<open>validateForm\<close> reports one reason for every violated field, in the
  order identifier, headquarters flag, address, country code, country name; the first
  violated check wins within a field only.
\<close>

theorem first_failure_per_field:
  "map snd (validateForm fd) =
     first_failure
       [(swiftCode fd = [], ''SWIFT code is required''),
        (length (swiftCode fd) \<notin> set [8, 11],
           ''SWIFT code must be either 8 or 11 characters long''),
        (\<not> regex_test swift_pattern (swiftCode fd), ''Invalid SWIFT code format'')]
     @ first_failure
       [(length (swiftCode fd) = 11 \<and> endsWith (swiftCode fd) (js ''XXX'') \<and> \<not> isHeadquarter fd,
           ''SWIFT codes ending with XXX must be headquarters''),
        (isHeadquarter fd
           \<and> (\<not> endsWith (swiftCode fd) (js ''XXX'') \<or> length (swiftCode fd) \<noteq> 11),
           ''Only SWIFT codes ending with XXX can be headquarters'')]
     @ first_failure [(address fd = [], ''Address is required'')]
     @ first_failure
       [(countryISO2 fd = [], ''Country code is required''),
        (length (countryISO2 fd) \<noteq> 2, ''Country code must be exactly 2 characters''),
        (\<not> regex_test letters_pattern (countryISO2 fd),
           ''Country code must contain only letters'')]
     @ first_failure [(countryName fd = [], ''Country name is required'')]"
  unfolding validateForm_def map_append swiftCode_errors_def isHeadquarter_errors_def
    address_errors_def countryISO2_errors_def countryName_errors_def
    first_failure_1 first_failure_2 first_failure_3
  by (rule refl)

theorem first_failure_per_field_witness:
  "map snd (validateForm form_flagged)
     = [''Only SWIFT codes ending with XXX can be headquarters'', ''Address is required'']"
proof -
  have "map snd (validateForm form_flagged)
      = first_failure
       [(swiftCode form_flagged = [], ''SWIFT code is required''),
        (length (swiftCode form_flagged) \<notin> set [8, 11],
           ''SWIFT code must be either 8 or 11 characters long''),
        (\<not> regex_test swift_pattern (swiftCode form_flagged), ''Invalid SWIFT code format'')]
     @ first_failure
       [(length (swiftCode form_flagged) = 11 \<and> endsWith (swiftCode form_flagged) (js ''XXX'')
           \<and> \<not> isHeadquarter form_flagged,
           ''SWIFT codes ending with XXX must be headquarters''),
        (isHeadquarter form_flagged
           \<and> (\<not> endsWith (swiftCode form_flagged) (js ''XXX'')
              \<or> length (swiftCode form_flagged) \<noteq> 11),
           ''Only SWIFT codes ending with XXX can be headquarters'')]
     @ first_failure [(address form_flagged = [], ''Address is required'')]
     @ first_failure
       [(countryISO2 form_flagged = [], ''Country code is required''),
        (length (countryISO2 form_flagged) \<noteq> 2, ''Country code must be exactly 2 characters''),
        (\<not> regex_test letters_pattern (countryISO2 form_flagged),
           ''Country code must contain only letters'')]
     @ first_failure [(countryName form_flagged = [], ''Country name is required'')]"
    by (rule first_failure_per_field)
  also have "\<dots> = [''Only SWIFT codes ending with XXX can be headquarters'', ''Address is required'']"
    by (simp add: form_flagged_def form_DEUTDEFF_def swift_pattern_iff letters_pattern_iff
        js_def cls_AZ_def cls_AZ09_def endsWith_def)
  finally show ?thesis .
qed


section \<open>The fallback of the record count\<close>

text \<open>
  Claim C8. When the request to the count endpoint throws and the listing with
  \<open>limit=1000\<close> returns an array of records, \<open>fetchSwiftCodesCount\<close> returns an object
  whose \<open>count\<close> is the number of records, capped at 1000, and does not throw.
\<close>

theorem count_fallback_estimate:
  assumes "apiClient (count_request params) = Inl error"
    and "apiClient (listing_request params) = Inr response"
    and "data response = JArray records"
  shows "fetchSwiftCodesCount apiClient params
     = Inr (JObject [(''count'', JNumber (if length records < 1000 then int (length records) else 1000))])"
  using assms by (simp add: fetchSwiftCodesCount_def try_catch_def await_def)

theorem count_fallback_estimate_witness:
  "client_without_count [JNull, JNull] (count_request no_params) = Inl (HttpError 404)
   \<and> fetchSwiftCodesCount (client_without_count [JNull, JNull]) no_params
       = Inr (JObject [(''count'', JNumber 2)])
   \<and> client_without_count (replicate 1000 JNull) (count_request no_params) = Inl (HttpError 404)
   \<and> fetchSwiftCodesCount (client_without_count (replicate 1000 JNull)) no_params
       = Inr (JObject [(''count'', JNumber 1000)])"
proof -
  have c: "client_without_count records (count_request no_params) = Inl (HttpError 404)"
    for records
    by (simp add: client_without_count_def count_request_def)
  have l: "client_without_count records (listing_request no_params)
      = Inr \<lparr>http_response.status = 200, data = JArray records\<rparr>" for records
    by (simp add: client_without_count_def listing_request_def)
  have "fetchSwiftCodesCount (client_without_count [JNull, JNull]) no_params
       = Inr (JObject [(''count'', JNumber 2)])"
    using count_fallback_estimate
      [where apiClient = "client_without_count [JNull, JNull]" and params = no_params,
       OF c l] by simp
  moreover have "fetchSwiftCodesCount (client_without_count (replicate 1000 JNull)) no_params
       = Inr (JObject [(''count'', JNumber 1000)])"
    using count_fallback_estimate
      [where apiClient = "client_without_count (replicate 1000 JNull)" and params = no_params,
       OF c l] by simp
  ultimately show ?thesis using c by simp
qed

section \<open>Rounding to binary64\<close>

lemma floor_log2_le:
  assumes "0 < x"
  shows "2 powi (floor_log2 x) \<le> x"
proof (cases "1 \<le> x")
  case True
  then have pos: "0 < \<lfloor>x\<rfloor>" by linarith
  from bitlen_bounds [OF pos] have "2 ^ nat (bitlen \<lfloor>x\<rfloor> - 1) \<le> \<lfloor>x\<rfloor>" by simp
  then have "(of_int (2 ^ nat (bitlen \<lfloor>x\<rfloor> - 1)) :: rat) \<le> of_int \<lfloor>x\<rfloor>"
    by (simp only: of_int_le_iff)
  also have "\<dots> \<le> x" by simp
  finally have "(2::rat) ^ nat (bitlen \<lfloor>x\<rfloor> - 1) \<le> x" by simp
  moreover have "0 \<le> bitlen \<lfloor>x\<rfloor> - 1"
    using pos by (simp add: bitlen_alt_def)
  ultimately show ?thesis
    using True by (simp add: floor_log2_def power_int_def)
next
  case False
  then have lt: "x < 1" by simp
  define m where "m = \<lceil>1 / x\<rceil>"
  define b where "b = bitlen (m - 1)"
  have "1 < 1 / x" using assms lt by (simp add: field_simps)
  then have m2: "2 \<le> m" unfolding m_def by linarith
  then have pos: "0 < m - 1" by simp
  from bitlen_bounds [OF pos] have "m - 1 < 2 ^ nat b" by (simp add: b_def)
  then have "m \<le> 2 ^ nat b" by simp
  then have "(of_int m :: rat) \<le> of_int (2 ^ nat b)" by (simp only: of_int_le_iff)
  then have "(of_int m :: rat) \<le> 2 ^ nat b" by simp
  moreover have "1 / x \<le> of_int m" unfolding m_def by (rule le_of_int_ceiling)
  ultimately have "1 / x \<le> 2 ^ nat b" by linarith
  then have "1 \<le> x * 2 ^ nat b" using assms by (simp add: field_simps)
  then have "inverse (2 ^ nat b) \<le> x"
    by (simp add: field_simps)
  moreover have "(2::rat) powi (- b) = inverse (2 ^ nat b)"
  proof -
    have "(2::rat) powi (- b) = inverse (2 powi b)" by (rule power_int_minus)
    also have "\<dots> = inverse (2 ^ nat b)"
      using bitlen_nonneg [of "m - 1"] by (simp add: b_def power_int_def)
    finally show ?thesis .
  qed
  ultimately show ?thesis
    using False by (simp add: floor_log2_def m_def [symmetric] b_def [symmetric])
qed

lemma floor_log2_gt:
  assumes "0 < x"
  shows "x < 2 powi (floor_log2 x + 1)"
proof (cases "1 \<le> x")
  case True
  then have pos: "0 < \<lfloor>x\<rfloor>" by linarith
  from bitlen_bounds [OF pos] have "\<lfloor>x\<rfloor> + 1 \<le> 2 ^ nat (bitlen \<lfloor>x\<rfloor>)" by simp
  then have "(of_int (\<lfloor>x\<rfloor> + 1) :: rat) \<le> of_int (2 ^ nat (bitlen \<lfloor>x\<rfloor>))"
    by (simp only: of_int_le_iff)
  moreover have "x < of_int (\<lfloor>x\<rfloor> + 1)" by linarith
  ultimately have "x < 2 ^ nat (bitlen \<lfloor>x\<rfloor>)" by simp
  then show ?thesis
    using True bitlen_nonneg [of "\<lfloor>x\<rfloor>"] by (simp add: floor_log2_def power_int_def)
next
  case False
  then have lt: "x < 1" by simp
  define m where "m = \<lceil>1 / x\<rceil>"
  define b where "b = bitlen (m - 1)"
  have "1 < 1 / x" using assms lt by (simp add: field_simps)
  then have m2: "2 \<le> m" unfolding m_def by linarith
  then have pos: "0 < m - 1" by simp
  have b1: "1 \<le> b" using pos by (simp add: b_def bitlen_alt_def)
  from bitlen_bounds [OF pos] have "2 ^ nat (b - 1) \<le> m - 1" by (simp add: b_def)
  then have "(of_int (2 ^ nat (b - 1)) :: rat) \<le> of_int (m - 1)" by (simp only: of_int_le_iff)
  moreover have "of_int (m - 1) < 1 / x" unfolding m_def by linarith
  ultimately have "2 ^ nat (b - 1) < 1 / x" by simp
  then have "x * 2 ^ nat (b - 1) < 1" using assms by (simp add: field_simps)
  then have "x < inverse (2 ^ nat (b - 1))"
    by (simp add: field_simps)
  moreover have "(2::rat) powi (- b + 1) = inverse (2 ^ nat (b - 1))"
  proof -
    have "(2::rat) powi (- b + 1) = 2 powi (- (b - 1))" by simp
    also have "\<dots> = inverse (2 powi (b - 1))" by (rule power_int_minus)
    also have "\<dots> = inverse (2 ^ nat (b - 1))" using b1 by (simp add: power_int_def)
    finally show ?thesis .
  qed
  ultimately show ?thesis
    using False by (simp add: floor_log2_def m_def [symmetric] b_def [symmetric])
qed

lemma round_half_even_le: "x \<le> of_int n \<Longrightarrow> round_half_even x \<le> n"
  unfolding round_half_even_def Let_def by (auto; linarith)

lemma round_half_even_ge: "of_int n \<le> x \<Longrightarrow> n \<le> round_half_even x"
  unfolding round_half_even_def Let_def by (auto; linarith)



lemma powi_cancel: "(2::rat) powi u * 2 powi (- u) = 1"
  by (simp add: power_int_minus)

lemma binary64_pos:
  assumes "0 < x"
  shows "binary64 x
    = of_int (round_half_even (x * 2 powi (- (floor_log2 x - 52)))) * 2 powi (floor_log2 x - 52)"
  using assms by (simp add: binary64_def Let_def)

lemma binary64_le:
  assumes "0 < x" and "x \<le> y" and "y = of_int k * 2 powi (floor_log2 x - 52)"
  shows "binary64 x \<le> y"
proof -
  define u where "u = floor_log2 x - 52"
  have "x * 2 powi (- u) \<le> y * 2 powi (- u)"
    using assms(2) by (simp add: mult_right_mono)
  also have "\<dots> = of_int k * (2 powi u * 2 powi (- u))"
    using assms(3) by (simp add: u_def)
  also have "\<dots> = of_int k"
    by (simp only: powi_cancel mult_1_right)
  finally have "round_half_even (x * 2 powi (- u)) \<le> k"
    by (rule round_half_even_le)
  then have "(of_int (round_half_even (x * 2 powi (- u))) :: rat) \<le> of_int k"
    by (simp only: of_int_le_iff)
  then have "of_int (round_half_even (x * 2 powi (- u))) * 2 powi u \<le> of_int k * (2::rat) powi u"
    by (simp add: mult_right_mono)
  then show ?thesis
    using assms(1,3) by (simp add: binary64_pos u_def)
qed

lemma binary64_ge:
  assumes "0 < x" and "y \<le> x" and "y = of_int k * 2 powi (floor_log2 x - 52)"
  shows "y \<le> binary64 x"
proof -
  define u where "u = floor_log2 x - 52"
  have "of_int k = of_int k * ((2::rat) powi u * 2 powi (- u))"
    by (simp only: powi_cancel mult_1_right)
  also have "\<dots> = y * 2 powi (- u)"
    using assms(3) by (simp add: u_def)
  also have "\<dots> \<le> x * 2 powi (- u)"
    using assms(2) by (simp add: mult_right_mono)
  finally have "k \<le> round_half_even (x * 2 powi (- u))"
    by (rule round_half_even_ge)
  then have "(of_int k :: rat) \<le> of_int (round_half_even (x * 2 powi (- u)))"
    by (simp only: of_int_le_iff)
  then have "of_int k * (2::rat) powi u \<le> of_int (round_half_even (x * 2 powi (- u))) * 2 powi u"
    by (simp add: mult_right_mono)
  then show ?thesis
    using assms(1,3) by (simp add: binary64_pos u_def)
qed

lemma integer_on_grid:
  assumes "u \<le> 0"
  shows "(of_int m :: rat) = of_int (m * 2 ^ nat (- u)) * 2 powi u"
proof -
  have "(2::rat) ^ nat (- u) = 2 powi (- u)"
    using assms by (simp add: power_int_def)
  then have "(of_int (m * 2 ^ nat (- u)) :: rat) * 2 powi u = of_int m * (2 powi (- u) * 2 powi u)"
    by simp
  also have "\<dots> = of_int m"
    using powi_cancel [of u] by (simp add: mult.commute)
  finally show ?thesis by simp
qed

lemma floor_log2_small:
  assumes "0 < x" and "x < 2 ^ 53"
  shows "floor_log2 x - 52 \<le> 0"
proof -
  have "2 powi (floor_log2 x) \<le> x" using assms(1) by (rule floor_log2_le)
  also have "x < 2 powi 53" using assms(2) by simp
  finally have "floor_log2 x < 53"
    by (rule power_int_le_imp_less_exp [rotated]) simp_all
  then show ?thesis by simp
qed

lemma binary64_below_integer:
  assumes "0 \<le> x" and "x \<le> of_int m" and "m < 2 ^ 53"
  shows "0 \<le> binary64 x \<and> binary64 x \<le> of_int m"
proof (cases "x = 0")
  case True
  with assms show ?thesis by (simp add: binary64_def)
next
  case False
  with assms(1) have pos: "0 < x" by simp
  have "(of_int m :: rat) < of_int (2 ^ 53)" using assms(3) by (simp only: of_int_less_iff)
  with assms(2) have "x < 2 ^ 53" by simp
  with pos have u: "floor_log2 x - 52 \<le> 0" by (rule floor_log2_small)
  have "binary64 x \<le> of_int m"
    using pos assms(2) integer_on_grid [OF u] by (rule binary64_le)
  moreover have "of_int 0 \<le> binary64 x"
    using pos _ integer_on_grid [OF u] by (rule binary64_ge) (use pos in simp)
  ultimately show ?thesis by simp
qed

lemma binary64_of_nat:
  assumes "n < 2 ^ 53"
  shows "binary64 (of_nat n) = of_nat n"
proof (cases "n = 0")
  case True
  then show ?thesis by (simp add: binary64_def)
next
  case False
  then have pos: "0 < (of_nat n :: rat)" by simp
  have "(of_nat n :: rat) < of_nat (2 ^ 53)" using assms by (simp only: of_nat_less_iff)
  then have "(of_nat n :: rat) < 2 ^ 53" by simp
  with pos have u: "floor_log2 (of_nat n) - 52 \<le> 0" by (rule floor_log2_small)
  have n: "(of_nat n :: rat) = of_int (int n)" by simp
  have "binary64 (of_nat n) \<le> of_int (int n)"
    using pos _ integer_on_grid [OF u] by (rule binary64_le) simp
  moreover have "of_int (int n) \<le> binary64 (of_nat n)"
    using pos _ integer_on_grid [OF u] by (rule binary64_ge) simp
  ultimately show ?thesis by simp
qed

lemma binary64_positive:
  assumes "0 < x"
  shows "0 < binary64 x"
proof -
  have "(2::rat) powi (floor_log2 x) = 2 powi (52 + (floor_log2 x - 52))" by simp
  also have "\<dots> = 2 powi 52 * 2 powi (floor_log2 x - 52)"
    by (rule power_int_add) simp
  also have "\<dots> = of_int (2 ^ 52) * 2 powi (floor_log2 x - 52)" by simp
  finally have grid: "(2::rat) powi (floor_log2 x) = of_int (2 ^ 52) * 2 powi (floor_log2 x - 52)" .
  have "2 powi (floor_log2 x) \<le> binary64 x"
    using assms floor_log2_le [OF assms] grid by (rule binary64_ge)
  moreover have "(0::rat) < 2 powi (floor_log2 x)" by simp
  ultimately show ?thesis by linarith
qed

lemma binary64_eq_0_iff: "0 \<le> x \<Longrightarrow> binary64 x = 0 \<longleftrightarrow> x = 0"
  using binary64_positive [of x] by (auto simp: binary64_def)

text \<open>The model agrees with the binary64 values of well-known quotients and sums.\<close>

lemma binary64_examples:
  "binary64 (1 / 10) = 3602879701896397 / 36028797018963968"
  "binary64 (1 / 3) = 6004799503160661 / 18014398509481984"
  "js_add (binary64 (1 / 10)) (binary64 (2 / 10)) = 1351079888211149 / 4503599627370496"
  "js_div 29 100 = 5224175567749775 / 18014398509481984"
  "js_mul (js_div 29 100) 100 = 8162774324609023 / 281474976710656"
  by code_simp+

section \<open>The progress of an upload\<close>

lemma calculateProgress_exact_sum:
  assumes "other_status s" and "0 < total_records s" and "total_records s < 2 ^ 53"
    and "processed s + failed s + skipped s < 2 ^ 53"
  shows "calculateProgress (Some s)
     = \<lfloor>binary64 (binary64 (of_nat (processed s + failed s + skipped s)
                              / of_nat (total_records s)) * 100)\<rfloor>"
proof -
  have p: "processed s < 2 ^ 53" "failed s < 2 ^ 53" "skipped s < 2 ^ 53"
    "processed s + failed s < 2 ^ 53"
    using assms(4) by simp_all
  have t: "binary64 (of_nat (total_records s)) = of_nat (total_records s)"
    using assms(3) by (rule binary64_of_nat)
  have pf: "binary64 (of_nat (processed s) + of_nat (failed s))
      = of_nat (processed s) + of_nat (failed s)"
    using binary64_of_nat [OF p(4)] by simp
  have pfs: "binary64 (of_nat (processed s) + of_nat (failed s) + of_nat (skipped s))
      = of_nat (processed s) + of_nat (failed s) + of_nat (skipped s)"
    using binary64_of_nat [OF assms(4)] by simp
  have sum: "js_add (js_add (binary64 (of_nat (processed s))) (binary64 (of_nat (failed s))))
        (binary64 (of_nat (skipped s)))
      = of_nat (processed s + failed s + skipped s)"
    by (simp add: js_add_def binary64_of_nat [OF p(1)] binary64_of_nat [OF p(2)]
        binary64_of_nat [OF p(3)] pf pfs)
  have nz: "binary64 (of_nat (total_records s)) \<noteq> 0"
    using assms(2) by (simp add: t)
  show ?thesis
    using assms(1) nz
    unfolding calculateProgress_def other_status_def
    by (simp add: Let_def sum t js_mul_def js_div_def Math_floor_def del: of_nat_add)
qed

lemma calculateProgress_range:
  assumes "other_status s" and "0 < total_records s" and "total_records s < 2 ^ 53"
    and "processed s + failed s + skipped s \<le> total_records s"
  shows "0 \<le> calculateProgress (Some s) \<and> calculateProgress (Some s) \<le> 100"
proof -
  define n where "n = processed s + failed s + skipped s"
  define q where "q = binary64 (of_nat n / of_nat (total_records s))"
  have n: "n < 2 ^ 53" using assms(3,4) by (simp add: n_def)
  have eq: "calculateProgress (Some s) = \<lfloor>binary64 (q * 100)\<rfloor>"
    using calculateProgress_exact_sum [OF assms(1,2,3)] n by (simp add: n_def q_def)
  have "(of_nat n :: rat) \<le> of_nat (total_records s)"
    using assms(4) by (simp only: of_nat_le_iff n_def)
  then have le1: "(of_nat n :: rat) / of_nat (total_records s) \<le> of_int 1"
    using assms(2) by (simp add: divide_le_eq)
  have ge0: "0 \<le> (of_nat n :: rat) / of_nat (total_records s)" by simp
  from ge0 le1 have q: "0 \<le> q \<and> q \<le> of_int 1"
    unfolding q_def by (rule binary64_below_integer) simp
  then have "0 \<le> q * 100" "q * 100 \<le> of_int 100" by simp_all
  then have "0 \<le> binary64 (q * 100) \<and> binary64 (q * 100) \<le> of_int 100"
    by (rule binary64_below_integer) simp
  then have "0 \<le> \<lfloor>binary64 (q * 100)\<rfloor>" "\<lfloor>binary64 (q * 100)\<rfloor> \<le> 100"
    by (simp_all add: floor_le_iff) 
  then show ?thesis by (simp add: eq)
qed

text \<open>
  Claim C9, as stated, fails: with 29 of 100 records the quotient \<open>29 / 100\<close> is rounded
  to binary64, its product with 100 is rounded to \<open>28.999999999999996\<close>, and
  \<open>calculateProgress\<close> returns 28, where \<open>floor(100 * 29 / 100)\<close> is 29.
\<close>

theorem progress_29_of_100:
  "calculateProgress (Some status_29_of_100) = 28
   \<and> claimed_progress status_29_of_100 = 29
   \<and> calculateProgress (Some status_29_of_100) \<noteq> claimed_progress status_29_of_100"
proof -
  have "calculateProgress (Some status_29_of_100) = 28"
    by code_simp
  moreover have "claimed_progress status_29_of_100 = 29"
    by (simp add: claimed_progress_def status_29_of_100_def js_def)
  ultimately show ?thesis by simp
qed

lemma status_literals:
  "js ''pending'' \<noteq> js ''completed''" "js ''pending'' \<noteq> js ''failed''"
  by (simp_all add: js_def)

text \<open>
  Claim C9, amended. \<open>calculateProgress\<close> returns 0 for a pending upload, 100 for a
  completed or failed one, 50 for any other status with \<open>total_records\<close> 0, and otherwise
  (for counters below \<open>2^53\<close>) the floor of the binary64 product of 100 with the binary64
  quotient of the sum of the counters by \<open>total_records\<close>. When the sum of the counters is
  at most \<open>total_records\<close>, below \<open>2^53\<close>, the result lies between 0 and 100.
\<close>

theorem progress_in_double_arithmetic:
  "(status s = js ''pending'' \<longrightarrow> calculateProgress (Some s) = 0)
   \<and> (status s = js ''completed'' \<or> status s = js ''failed'' \<longrightarrow>
        calculateProgress (Some s) = 100)
   \<and> (other_status s \<and> total_records s = 0 \<longrightarrow> calculateProgress (Some s) = 50)
   \<and> (other_status s \<and> 0 < total_records s \<and> total_records s < 2 ^ 53
        \<and> processed s + failed s + skipped s < 2 ^ 53 \<longrightarrow>
        calculateProgress (Some s)
          = \<lfloor>binary64 (binary64 (of_nat (processed s + failed s + skipped s)
                                   / of_nat (total_records s)) * 100)\<rfloor>)
   \<and> (total_records s < 2 ^ 53 \<and> processed s + failed s + skipped s \<le> total_records s \<longrightarrow>
        0 \<le> calculateProgress (Some s) \<and> calculateProgress (Some s) \<le> 100)"
proof -
  have 1: "status s = js ''pending'' \<Longrightarrow> calculateProgress (Some s) = 0"
    by (simp add: calculateProgress_def)
  have 2: "status s = js ''completed'' \<or> status s = js ''failed'' \<Longrightarrow>
      calculateProgress (Some s) = 100"
    using status_literals by (auto simp: calculateProgress_def)
  have 3: "other_status s \<Longrightarrow> total_records s = 0 \<Longrightarrow> calculateProgress (Some s) = 50"
    by (simp add: calculateProgress_def other_status_def binary64_def)
  have 5: "0 \<le> calculateProgress (Some s) \<and> calculateProgress (Some s) \<le> 100"
    if "total_records s < 2 ^ 53" "processed s + failed s + skipped s \<le> total_records s"
  proof (cases "other_status s")
    case False
    then have "status s = js ''pending'' \<or> status s = js ''completed'' \<or> status s = js ''failed''"
      by (auto simp: other_status_def)
    with 1 2 show ?thesis by auto
  next
    case True
    show ?thesis
    proof (cases "total_records s = 0")
      case True
      with \<open>other_status s\<close> 3 show ?thesis by simp
    next
      case False
      then have "0 < total_records s" by simp
      with True that show ?thesis by (intro calculateProgress_range)
    qed
  qed
  from 1 2 3 5 calculateProgress_exact_sum [of s] show ?thesis by blast
qed

theorem progress_in_double_arithmetic_witness:
  "other_status status_29_of_100
   \<and> 0 < total_records status_29_of_100 \<and> total_records status_29_of_100 < 2 ^ 53
   \<and> processed status_29_of_100 + failed status_29_of_100 + skipped status_29_of_100
       \<le> total_records status_29_of_100
   \<and> calculateProgress (Some status_29_of_100)
       = \<lfloor>binary64 (binary64 (29 / 100) * 100)\<rfloor>
   \<and> 0 \<le> calculateProgress (Some status_29_of_100)
   \<and> calculateProgress (Some status_29_of_100) \<le> 100
   \<and> calculateProgress (Some (status_29_of_100\<lparr>status := js ''pending''\<rparr>)) = 0
   \<and> calculateProgress (Some (status_29_of_100\<lparr>status := js ''failed''\<rparr>)) = 100
   \<and> calculateProgress (Some (status_29_of_100\<lparr>total_records := 0, processed := 0\<rparr>)) = 50"
proof -
  have o: "other_status status_29_of_100"
    "other_status (status_29_of_100\<lparr>total_records := 0, processed := 0\<rparr>)"
    by (simp_all add: other_status_def status_29_of_100_def js_def)
  have t: "0 < total_records status_29_of_100 \<and> total_records status_29_of_100 < 2 ^ 53"
    "processed status_29_of_100 + failed status_29_of_100 + skipped status_29_of_100
       \<le> total_records status_29_of_100"
    "processed status_29_of_100 + failed status_29_of_100 + skipped status_29_of_100 < 2 ^ 53"
    by (simp_all add: status_29_of_100_def)
  have v: "(of_nat (processed status_29_of_100 + failed status_29_of_100
        + skipped status_29_of_100) :: rat) / of_nat (total_records status_29_of_100) = 29 / 100"
    by (simp add: status_29_of_100_def)
  have "calculateProgress (Some status_29_of_100)
       = \<lfloor>binary64 (binary64 (29 / 100) * 100)\<rfloor>"
    using progress_in_double_arithmetic [of status_29_of_100] o t unfolding v by blast
  moreover have "0 \<le> calculateProgress (Some status_29_of_100)
      \<and> calculateProgress (Some status_29_of_100) \<le> 100"
    using progress_in_double_arithmetic [of status_29_of_100] t by blast
  moreover have "calculateProgress (Some (status_29_of_100\<lparr>status := js ''pending''\<rparr>)) = 0"
    using progress_in_double_arithmetic [of "status_29_of_100\<lparr>status := js ''pending''\<rparr>"]
    by simp
  moreover have "calculateProgress (Some (status_29_of_100\<lparr>status := js ''failed''\<rparr>)) = 100"
    using progress_in_double_arithmetic [of "status_29_of_100\<lparr>status := js ''failed''\<rparr>"]
    by simp
  moreover have
    "calculateProgress (Some (status_29_of_100\<lparr>total_records := 0, processed := 0\<rparr>)) = 50"
    using progress_in_double_arithmetic
      [of "status_29_of_100\<lparr>total_records := 0, processed := 0\<rparr>"] o(2)
    by simp
  ultimately show ?thesis using o(1) t by (simp only: simp_thms)
qed

section \<open>The health check of the upload service\<close>

text \<open>
  Claim C10. \<open>checkUploadApiHealth\<close> always returns a boolean: \<open>true\<close> exactly when the
  request is settled with a response of status 200, \<open>false\<close> whenever the request throws.
\<close>

theorem health_check_never_throws:
  "(\<exists>b. checkUploadApiHealth uploadApiClient = Inr b)
   \<and> (checkUploadApiHealth uploadApiClient = Inr True \<longleftrightarrow>
        (\<exists>response. uploadApiClient health_request = Inr response \<and> http_response.status response = 200))
   \<and> (\<forall>error. uploadApiClient health_request = Inl error \<longrightarrow>
        checkUploadApiHealth uploadApiClient = Inr False)"
  by (cases "uploadApiClient health_request")
     (auto simp: checkUploadApiHealth_def try_catch_def await_def)

theorem health_check_never_throws_witness:
  "client_down health_request = Inl NetworkError
   \<and> checkUploadApiHealth client_down = Inr False
   \<and> checkUploadApiHealth client_healthy = Inr True"
proof -
  have d: "client_down health_request = Inl NetworkError"
    by (simp add: client_down_def)
  have h: "\<exists>response. client_healthy health_request = Inr response \<and> http_response.status response = 200"
    by (simp add: client_healthy_def)
  have "checkUploadApiHealth client_down = Inr False"
    using health_check_never_throws [of client_down] d by blast
  moreover have "checkUploadApiHealth client_healthy = Inr True"
    using health_check_never_throws [of client_healthy] h by blast
  ultimately show ?thesis using d by simp
qed

end
